theory Spec2Isabelle
  imports Main "HOL-Library.Char_ord" "HOL-Library.List_Lexorder"
begin

section \<open>The managed-remote-clusters annotation (package remotecluster)\<close>

subsection \<open>Go values used by annotations.go\<close>

text \<open>
  A Go map value is either \<open>nil\<close> or a reference to a table. Reading a \<open>nil\<close> map
  finds no key; \<open>None\<close> stands for \<open>nil\<close>, \<open>Some m\<close> for an allocated map.
\<close>

type_synonym ('k, 'v) gomap = "('k \<rightharpoonup> 'v) option"

definition index :: "('k, 'v) gomap \<Rightarrow> 'k \<Rightarrow> 'v option" where
  "index m k = (case m of None \<Rightarrow> None | Some t \<Rightarrow> t k)"

text \<open>
  \<open>esv1.Elasticsearch\<close>: the fields of its object metadata that annotations.go reads or
  writes. The record is extensible, and everything below is stated for the record scheme,
  so the specification and status fields of the resource are the \<open>more\<close> part.
\<close>

record Elasticsearch =
  Namespace :: string
  Name :: string
  Annotations :: "(string, string) gomap"

text \<open>
  \<open>k8s.Client\<close>: only \<open>Update\<close> is called. The client is a parameter: a function from
  the object and the state of the API server to an optional error and the new state.
\<close>

type_synonym ('e, 's, 'a) Client = "'a Elasticsearch_scheme \<Rightarrow> 's \<Rightarrow> 'e option \<times> 's"

definition ManagedRemoteClustersAnnotationName :: string where
  "ManagedRemoteClustersAnnotationName = ''elasticsearch.k8s.elastic.co/managed-remote-clusters''"

text \<open>
  \<open>strings.Split(s, sep)\<close> for a separator of one byte, the only use in annotations.go:
  the substrings of \<open>s\<close> between the separators, one more than there are separators, so
  the empty string splits into one empty substring.
\<close>

fun Split :: "string \<Rightarrow> char \<Rightarrow> string list" where
  "Split [] sep = [[]]"
| "Split (c # s) sep =
     (if c = sep then [] # Split s sep
      else (case Split s sep of [] \<Rightarrow> [[c]] | w # ws \<Rightarrow> (c # w) # ws))"

text \<open>\<open>strings.Join(elems, sep)\<close>: the elements with the separator between them.\<close>

fun Join :: "string list \<Rightarrow> string \<Rightarrow> string" where
  "Join [] sep = []"
| "Join [a] sep = a"
| "Join (a # b # elems) sep = a @ sep @ Join (b # elems) sep"

text \<open>
  \<open>sort.Strings\<close> sorts in increasing order of Go's comparison of strings, the bytewise
  lexicographic order; that is the order of \<open>char list\<close> here, and \<open>sort\<close> is the
  sorting function.
\<close>

subsection \<open>annotations.go\<close>

text \<open>
  The returned \<open>map[string]struct{}\<close> is a set of strings behind a possibly-nil
  reference; the function allocates it with \<open>make\<close> and inserts each substring.
\<close>

definition getRemoteClustersInAnnotation :: "'a Elasticsearch_scheme \<Rightarrow> string set option" where
  "getRemoteClustersInAnnotation es =
     (let remoteClusters = {} in
      case index (Annotations es) ManagedRemoteClustersAnnotationName of
        None \<Rightarrow> Some remoteClusters
      | Some serializedRemoteClusters \<Rightarrow>
          Some (fold insert (Split serializedRemoteClusters (CHR '','')) remoteClusters))"

text \<open>
  The argument \<open>remoteClusters\<close> is the list of the keys of the Go map in the order in
  which \<open>range\<close> yields them: an order the runtime chooses, each key once (so the list
  is distinct; a \<open>nil\<close> map yields none). The resource is passed by value and the
  function's last action is the call of \<open>c.Update\<close> on its copy.
\<close>

definition annotateWithCreatedRemoteClusters ::
  "('e, 's, 'a) Client \<Rightarrow> 'a Elasticsearch_scheme \<Rightarrow> string list \<Rightarrow> 's \<Rightarrow> 'e option \<times> 's" where
  "annotateWithCreatedRemoteClusters c es remoteClusters s =
     (let annotations = (case Annotations es of None \<Rightarrow> Map.empty | Some t \<Rightarrow> t);
          annotation = fold (\<lambda>remoteCluster a. a @ [remoteCluster]) remoteClusters [];
          annotation = sort annotation;
          es = es\<lparr>Annotations :=
                 Some (annotations(ManagedRemoteClustersAnnotationName \<mapsto> Join annotation '','')) \<rparr>
      in c es s)"

text \<open>The object that \<open>annotateWithCreatedRemoteClusters\<close> hands to \<open>c.Update\<close>, seen
  through a client that stores what it is given and reports no error.\<close>

definition storing_Update :: "(unit, 'a Elasticsearch_scheme option, 'a) Client" where
  "storing_Update es s = (None, Some es)"

section \<open>The Enterprise Search reconciler (package enterprisesearch)\<close>

text \<open>
  Of this package the sources hold the test file only; the reconciler, the naming
  functions and the packages they call are absent. Each definition below that stands for
  absent code says so, and follows the specification (its sections 4 and 6) and the
  values the tests fix. Time is in seconds.
\<close>

subsection \<open>Names of the dependent resources\<close>

text \<open>
  Modelled from the spec: the package \<open>enterprisesearch/name\<close> is missing. The spec's
  pattern is the owner's name, a separator and a fixed suffix; the suffixes are the ones
  in the literals of \<open>checkResources\<close> (\<open>sample-ent-http-ca-internal\<close>,
  \<open>sample-ent-http-certs-internal\<close>, \<open>sample-ent-http-certs-public\<close>,
  \<open>sample-ent-config\<close>, and \<open>sample-ent\<close> for the deployment). The test obtains the
  service's name from \<open>HTTPService\<close> and shows no literal for it: its suffix here is the
  prefix the three certificate secrets share.
\<close>

definition Suffix :: "string \<Rightarrow> string \<Rightarrow> string" where
  "Suffix ownerName suffix = ownerName @ ''-'' @ suffix"

definition HTTPService :: "string \<Rightarrow> string" where
  "HTTPService entName = Suffix entName ''ent-http''"

definition CAInternalSecret :: "string \<Rightarrow> string" where
  "CAInternalSecret entName = Suffix entName ''ent-http-ca-internal''"

definition CertsInternalSecret :: "string \<Rightarrow> string" where
  "CertsInternalSecret entName = Suffix entName ''ent-http-certs-internal''"

definition CertsPublicSecret :: "string \<Rightarrow> string" where
  "CertsPublicSecret entName = Suffix entName ''ent-http-certs-public''"

definition ConfigSecret :: "string \<Rightarrow> string" where
  "ConfigSecret entName = Suffix entName ''ent-config''"

definition DeploymentName :: "string \<Rightarrow> string" where
  "DeploymentName entName = Suffix entName ''ent''"

subsection \<open>Objects\<close>

text \<open>
  Modelled from the spec: the API types are missing. The records hold the fields the
  spec's data model and the tests name. The test names four constants without showing
  their strings (\<open>common.ManagedAnnotation\<close>, \<open>annotation.ControllerVersionAnnotation\<close>,
  \<open>EnterpriseSearchNameLabelName\<close>, \<open>ConfigHashLabelName\<close>): annotation and label keys
  are datatypes with one constructor for each of them and one for every other key.
  An object's namespace and name are its key in the storage. A Go map of labels or of
  secret data is the list of its entries; \<open>map_of\<close> reads it, and two lists are the
  same map when they give every key the same value.
\<close>

definition sameEntries :: "('k \<times> 'v) list \<Rightarrow> ('k \<times> 'v) list \<Rightarrow> bool" where
  "sameEntries a b = (\<forall>k \<in> set (map fst a) \<union> set (map fst b). map_of a k = map_of b k)"

type_synonym NamespacedName = "string \<times> string"

datatype AnnotationKey = ManagedAnnotation | ControllerVersionAnnotation | OtherAnnotation string

datatype LabelKey = EnterpriseSearchNameLabelName | ConfigHashLabelName | OtherLabel string

record EnterpriseSearchSpec =
  Version :: string
  Count :: int
  ElasticsearchRef :: NamespacedName
  ConfigRef :: "string list"
  TLSSecretName :: string

record EnterpriseSearch =
  entAnnotations :: "AnnotationKey \<rightharpoonup> string"
  Spec :: EnterpriseSearchSpec
  AssociationConf :: "string option"

record Service =
  Ports :: "int list"
  Selector :: "(LabelKey \<times> string) list"
  ClusterIP :: string

record Certificate =
  PublicKey :: nat
  Issuer :: nat
  DNSNames :: "string list"
  NotAfter :: nat

datatype Bytes = Text string | X509 Certificate | PrivateKey nat

record Secret =
  Data :: "(string \<times> Bytes) list"

record Deployment =
  Replicas :: int
  TemplateLabels :: "(LabelKey \<times> string) list"
  SecretVolumes :: "string list"
  ReadyReplicas :: int

datatype Object =
  ServiceObj Service | SecretObj Secret | DeploymentObj Deployment | OwnerObj EnterpriseSearch

datatype Kind = ServiceKind | SecretKind | DeploymentKind | EnterpriseSearchKind

type_synonym ObjectKey = "Kind \<times> NamespacedName"

record FieldError =
  Field :: string
  Detail :: string

datatype Error = ValidationError FieldError | StorageError ObjectKey | CertGenerationError

record Event =
  EventType :: string
  Reason :: string
  Message :: string

datatype WatchTag = ConfigRefWatch | HTTPCertificateWatch

record Registration =
  Owner :: NamespacedName
  Tag :: WatchTag
  Watched :: "NamespacedName list"

record Result =
  Requeue :: bool
  RequeueAfter :: nat

subsection \<open>Collaborators\<close>

text \<open>
  Modelled from the spec: platform storage (section 6). \<open>Objects\<close> is what is stored.
  A write is a \<open>create\<close> when the key is free and an \<open>update\<close> when it is taken; it is
  refused with an error for the keys in \<open>Refused\<close> (a conflict, an I/O failure) and is
  logged in \<open>Writes\<close> otherwise.
\<close>

record Cluster =
  Objects :: "ObjectKey \<rightharpoonup> Object"
  Refused :: "ObjectKey set"
  Writes :: "ObjectKey list"

text \<open>
  Modelled from the spec: the operator's parameters. The test sets the build's version;
  the validity of a new CA and of a new leaf certificate, the safety margin before
  not-after and the hash of the configuration are left open by the spec and are
  parameters.
\<close>

record Parameters =
  OperatorVersion :: string
  CAValidity :: nat
  CertValidity :: nat
  RotateBefore :: nat
  ConfigHash :: "string \<Rightarrow> string"

text \<open>
  Modelled from the spec: the reconciler's state, with the fields the tests set: the
  client, the watch registry, the event recorder (the events recorded so far, oldest
  first) and the parameters; and the source of key material of section 4.2, the keys
  still to be drawn (none left: generation fails with the spec's \<open>CertGenerationError\<close>).
\<close>

record ReconcileEnterpriseSearch =
  Client :: Cluster
  dynamicWatches :: "Registration list"
  recorder :: "Event list"
  Params :: Parameters
  entropy :: "nat list"

type_synonym 'a step = "ReconcileEnterpriseSearch \<Rightarrow> (Error + 'a) \<times> ReconcileEnterpriseSearch"

definition ok :: "'a \<Rightarrow> 'a step" where
  "ok x r = (Inr x, r)"

definition andThen :: "'a step \<Rightarrow> ('a \<Rightarrow> 'b step) \<Rightarrow> 'b step" where
  "andThen m f r = (case m r of (Inl e, r') \<Rightarrow> (Inl e, r') | (Inr x, r') \<Rightarrow> f x r')"

definition get :: "Cluster \<Rightarrow> ObjectKey \<Rightarrow> Object option" where
  "get c k = Objects c k"

definition persist :: "ObjectKey \<Rightarrow> Object \<Rightarrow> unit step" where
  "persist k obj r =
     (if k \<in> Refused (Client r) then (Inl (StorageError k), r)
      else (Inr (), r\<lparr>Client := (Client r)\<lparr>Objects := (Objects (Client r))(k \<mapsto> obj),
                                              Writes := Writes (Client r) @ [k]\<rparr>\<rparr>))"

definition generateKey :: "nat step" where
  "generateKey r =
     (case entropy r of
        [] \<Rightarrow> (Inl CertGenerationError, r)
      | key # keys \<Rightarrow> (Inr key, r\<lparr>entropy := keys\<rparr>))"

definition record_event :: "Event \<Rightarrow> ReconcileEnterpriseSearch \<Rightarrow> ReconcileEnterpriseSearch" where
  "record_event e r = r\<lparr>recorder := recorder r @ [e]\<rparr>"

text \<open>The fake recorder of the tests renders an event as type, reason and message.\<close>

definition render_event :: "Event \<Rightarrow> string" where
  "render_event e = EventType e @ '' '' @ Reason e @ '' '' @ Message e"

text \<open>
  Modelled from the spec: the validator (section 6), of which the spec and the test fix
  one rule, that the version is required, and the error's form, a field path and a
  message.
\<close>

definition validate :: "EnterpriseSearchSpec \<Rightarrow> FieldError option" where
  "validate spec =
     (if Version spec = [] then Some \<lparr>Field = ''spec.version'', Detail = ''Invalid value''\<rparr>
      else None)"

definition error_message :: "FieldError \<Rightarrow> string" where
  "error_message fe = Field fe @ '': '' @ Detail fe"

definition Error_text :: "Error \<Rightarrow> string" where
  "Error_text e =
     (case e of
        ValidationError fe \<Rightarrow> error_message fe
      | StorageError k \<Rightarrow> ''storage refused the write''
      | CertGenerationError \<Rightarrow> ''certificate generation failed'')"

subsection \<open>Watch registry (spec, section 4.1)\<close>

text \<open>Modelled from the spec: \<open>register\<close> replaces the owner's set under the tag, and
  an empty set of names removes it; \<open>unregisterAll\<close> removes every tag of the owner.\<close>

definition register ::
  "NamespacedName \<Rightarrow> WatchTag \<Rightarrow> NamespacedName list \<Rightarrow> Registration list \<Rightarrow> Registration list" where
  "register ownerID watchTag resourceNames regs =
     filter (\<lambda>reg. \<not> (Owner reg = ownerID \<and> Tag reg = watchTag)) regs
     @ (if resourceNames = [] then []
        else [\<lparr>Owner = ownerID, Tag = watchTag, Watched = resourceNames\<rparr>])"

definition unregisterAll :: "NamespacedName \<Rightarrow> Registration list \<Rightarrow> Registration list" where
  "unregisterAll ownerID regs = filter (\<lambda>reg. Owner reg \<noteq> ownerID) regs"

definition listWatchedSecretNames :: "NamespacedName \<Rightarrow> Registration list \<Rightarrow> NamespacedName set" where
  "listWatchedSecretNames ownerID regs =
     set (concat (map Watched (filter (\<lambda>reg. Owner reg = ownerID) regs)))"

subsection \<open>Certificate manager (spec, section 4.2)\<close>

text \<open>
  Modelled from the spec. A key pair is the number drawn for it; a certificate names its
  own key, the key that signed it, its subject alternative names and its not-after. A
  secret of key material holds the certificate and the private key (and, for a leaf, the
  CA's certificate); the names of these entries are not in the sources. "Expired" is read
  with the data model's invariant: a certificate nearing (within the safety margin) or
  past its not-after is regenerated, the CA as the leaves.
\<close>

datatype CertKind = internal | public

definition leafSecretName :: "CertKind \<Rightarrow> string \<Rightarrow> string" where
  "leafSecretName kind entName =
     (case kind of internal \<Rightarrow> CertsInternalSecret entName | public \<Rightarrow> CertsPublicSecret entName)"

definition parseKeyPair :: "Secret \<Rightarrow> Certificate option" where
  "parseKeyPair s =
     (case map_of (Data s) ''tls.crt'' of
        Some (X509 c) \<Rightarrow>
          (case map_of (Data s) ''tls.key'' of
             Some (PrivateKey k) \<Rightarrow> if k = PublicKey c then Some c else None
           | _ \<Rightarrow> None)
      | _ \<Rightarrow> None)"

definition loadKeyPair :: "Cluster \<Rightarrow> NamespacedName \<Rightarrow> Certificate option" where
  "loadKeyPair c n =
     (case get c (SecretKind, n) of
        Some (SecretObj s) \<Rightarrow> parseKeyPair s
      | _ \<Rightarrow> None)"

definition expiring :: "Parameters \<Rightarrow> nat \<Rightarrow> Certificate \<Rightarrow> bool" where
  "expiring p now c = (NotAfter c \<le> now + RotateBefore p)"

definition rotationDeadline :: "Parameters \<Rightarrow> Certificate \<Rightarrow> nat" where
  "rotationDeadline p c = NotAfter c - RotateBefore p"

definition caSecret :: "Certificate \<Rightarrow> Secret" where
  "caSecret ca = \<lparr>Data = [(''tls.crt'', X509 ca), (''tls.key'', PrivateKey (PublicKey ca))]\<rparr>"

definition leafSecret :: "Certificate \<Rightarrow> Certificate \<Rightarrow> Secret" where
  "leafSecret ca c =
     \<lparr>Data = [(''tls.crt'', X509 c), (''tls.key'', PrivateKey (PublicKey c)),
              (''ca.crt'', X509 ca)]\<rparr>"

definition validCA :: "Parameters \<Rightarrow> nat \<Rightarrow> Certificate \<Rightarrow> bool" where
  "validCA p now ca = (Issuer ca = PublicKey ca \<and> \<not> expiring p now ca)"

definition ensureCA :: "nat \<Rightarrow> NamespacedName \<Rightarrow> Certificate step" where
  "ensureCA now ownerID r =
     (let n = (fst ownerID, CAInternalSecret (snd ownerID));
          generate =
            andThen generateKey (\<lambda>key.
              let ca = \<lparr>PublicKey = key, Issuer = key, DNSNames = [],
                        NotAfter = now + CAValidity (Params r)\<rparr>
              in andThen (persist (SecretKind, n) (SecretObj (caSecret ca))) (\<lambda>_. ok ca))
      in case loadKeyPair (Client r) n of
           Some ca \<Rightarrow> if validCA (Params r) now ca then ok ca r else generate r
         | None \<Rightarrow> generate r)"

definition validLeaf :: "Parameters \<Rightarrow> nat \<Rightarrow> Certificate \<Rightarrow> string list \<Rightarrow> Certificate \<Rightarrow> bool" where
  "validLeaf p now ca subjectAltNames c =
     (Issuer c = PublicKey ca \<and> DNSNames c = subjectAltNames \<and> \<not> expiring p now c)"

definition ensureLeafCert ::
  "nat \<Rightarrow> NamespacedName \<Rightarrow> CertKind \<Rightarrow> string list \<Rightarrow> Certificate \<Rightarrow> nat step" where
  "ensureLeafCert now ownerID kind subjectAltNames ca r =
     (let n = (fst ownerID, leafSecretName kind (snd ownerID));
          generate =
            andThen generateKey (\<lambda>key.
              let c = \<lparr>PublicKey = key, Issuer = PublicKey ca, DNSNames = subjectAltNames,
                       NotAfter = now + CertValidity (Params r)\<rparr>
              in andThen (persist (SecretKind, n) (SecretObj (leafSecret ca c)))
                   (\<lambda>_. ok (rotationDeadline (Params r) c)))
      in case loadKeyPair (Client r) n of
           Some c \<Rightarrow>
             if validLeaf (Params r) now ca subjectAltNames c
             then ok (rotationDeadline (Params r) c) r
             else generate r
         | None \<Rightarrow> generate r)"

subsection \<open>Resource convergence engine (spec, section 4.3)\<close>

text \<open>
  Modelled from the spec: one operation for each kind of dependent. It computes the
  desired object, fetches the actual one under its name, creates it when absent, rewrites
  the fields the operator controls when one of them differs and writes nothing otherwise.
  The port is the one the test expects. The spec leaves the bytes of the configuration
  open beyond the field \<open>external_url\<close> and fields derived from the association.
\<close>

definition HTTPPort :: int where
  "HTTPPort = 3002"

definition desiredService :: "NamespacedName \<Rightarrow> Service" where
  "desiredService ownerID =
     \<lparr>Ports = [HTTPPort], Selector = [(EnterpriseSearchNameLabelName, snd ownerID)],
      ClusterIP = []\<rparr>"

definition reconcileService :: "NamespacedName \<Rightarrow> unit step" where
  "reconcileService ownerID r =
     (let k = (ServiceKind, fst ownerID, HTTPService (snd ownerID));
          desired = desiredService ownerID
      in case get (Client r) k of
           Some (ServiceObj actual) \<Rightarrow>
             if Ports actual = Ports desired \<and> sameEntries (Selector actual) (Selector desired)
             then ok () r
             else persist k
                    (ServiceObj (actual\<lparr>Ports := Ports desired, Selector := Selector desired\<rparr>)) r
         | _ \<Rightarrow> persist k (ServiceObj desired) r)"

definition subjectAltNames :: "NamespacedName \<Rightarrow> string list" where
  "subjectAltNames ownerID = [HTTPService (snd ownerID) @ ''.'' @ fst ownerID @ ''.svc'']"

definition ConfigFilename :: string where
  "ConfigFilename = ''enterprise-search.yml''"

definition renderConfig :: "NamespacedName \<Rightarrow> EnterpriseSearch \<Rightarrow> string" where
  "renderConfig ownerID ent =
     ''external_url: https://'' @ hd (subjectAltNames ownerID) @ '':3002'' @ [CHR 0x0A]
     @ (case AssociationConf ent of
          None \<Rightarrow> []
        | Some url \<Rightarrow> ''elasticsearch.host: '' @ url @ [CHR 0x0A])"

definition desiredConfig :: "NamespacedName \<Rightarrow> EnterpriseSearch \<Rightarrow> Secret" where
  "desiredConfig ownerID ent = \<lparr>Data = [(ConfigFilename, Text (renderConfig ownerID ent))]\<rparr>"

definition reconcileConfig :: "NamespacedName \<Rightarrow> EnterpriseSearch \<Rightarrow> string step" where
  "reconcileConfig ownerID ent r =
     (let k = (SecretKind, fst ownerID, ConfigSecret (snd ownerID));
          desired = desiredConfig ownerID ent;
          configHash = ConfigHash (Params r) (renderConfig ownerID ent)
      in case get (Client r) k of
           Some (SecretObj actual) \<Rightarrow>
             if sameEntries (Data actual) (Data desired) then ok configHash r
             else andThen (persist k (SecretObj (actual\<lparr>Data := Data desired\<rparr>)))
                    (\<lambda>_. ok configHash) r
         | _ \<Rightarrow> andThen (persist k (SecretObj desired)) (\<lambda>_. ok configHash) r)"

definition desiredDeployment :: "NamespacedName \<Rightarrow> EnterpriseSearch \<Rightarrow> string \<Rightarrow> Deployment" where
  "desiredDeployment ownerID ent configHash =
     \<lparr>Replicas = Count (Spec ent),
      TemplateLabels = [(EnterpriseSearchNameLabelName, snd ownerID),
                        (ConfigHashLabelName, configHash)],
      SecretVolumes = [CertsInternalSecret (snd ownerID), ConfigSecret (snd ownerID)],
      ReadyReplicas = 0\<rparr>"

definition sameDeployment :: "Deployment \<Rightarrow> Deployment \<Rightarrow> bool" where
  "sameDeployment actual desired =
     (Replicas actual = Replicas desired
      \<and> sameEntries (TemplateLabels actual) (TemplateLabels desired)
      \<and> SecretVolumes actual = SecretVolumes desired)"

definition reconcileDeployment :: "NamespacedName \<Rightarrow> EnterpriseSearch \<Rightarrow> string \<Rightarrow> unit step" where
  "reconcileDeployment ownerID ent configHash r =
     (let k = (DeploymentKind, fst ownerID, DeploymentName (snd ownerID));
          desired = desiredDeployment ownerID ent configHash
      in case get (Client r) k of
           Some (DeploymentObj actual) \<Rightarrow>
             if sameDeployment actual desired then ok () r
             else persist k
                    (DeploymentObj (actual\<lparr>Replicas := Replicas desired,
                                           TemplateLabels := TemplateLabels desired,
                                           SecretVolumes := SecretVolumes desired\<rparr>)) r
         | _ \<Rightarrow> persist k (DeploymentObj desired) r)"

subsection \<open>Reconciler (spec, section 4.5)\<close>

text \<open>
  Modelled from the spec: the state machine, its steps in the spec's order. The strings
  of the association event are the test's; the reason of the validation event is not in
  the sources.
\<close>

definition emptyResult :: Result where
  "emptyResult = \<lparr>Requeue = False, RequeueAfter = 0\<rparr>"

definition IsUnmanaged :: "EnterpriseSearch \<Rightarrow> bool" where
  "IsUnmanaged ent = (entAnnotations ent ManagedAnnotation = Some ''false'')"

definition IsDefined :: "NamespacedName \<Rightarrow> bool" where
  "IsDefined ref = (snd ref \<noteq> [])"

definition validationEvent :: "FieldError \<Rightarrow> Event" where
  "validationEvent fe =
     \<lparr>EventType = ''Warning'', Reason = ''Validation'', Message = error_message fe\<rparr>"

definition associationEvent :: Event where
  "associationEvent =
     \<lparr>EventType = ''Warning'', Reason = ''AssociationError'',
      Message = ''Elasticsearch backend is not configured''\<rparr>"

definition stampControllerVersion :: "NamespacedName \<Rightarrow> EnterpriseSearch \<Rightarrow> EnterpriseSearch step" where
  "stampControllerVersion ownerID ent r =
     (if entAnnotations ent ControllerVersionAnnotation = Some (OperatorVersion (Params r))
      then ok ent r
      else (let stamped = ent\<lparr>entAnnotations :=
                                 (entAnnotations ent)(ControllerVersionAnnotation \<mapsto>
                                    OperatorVersion (Params r))\<rparr>
            in andThen (persist (EnterpriseSearchKind, ownerID) (OwnerObj stamped))
                 (\<lambda>_. ok stamped) r))"

definition watchedSecrets :: "NamespacedName \<Rightarrow> string list \<Rightarrow> NamespacedName list" where
  "watchedSecrets ownerID names = map (\<lambda>n. (fst ownerID, n)) names"

definition recomputeWatches :: "NamespacedName \<Rightarrow> EnterpriseSearch \<Rightarrow> unit step" where
  "recomputeWatches ownerID ent r =
     (Inr (),
      r\<lparr>dynamicWatches :=
          register ownerID HTTPCertificateWatch
            (watchedSecrets ownerID
               (if TLSSecretName (Spec ent) = [] then [] else [TLSSecretName (Spec ent)]))
            (register ownerID ConfigRefWatch (watchedSecrets ownerID (ConfigRef (Spec ent)))
               (dynamicWatches r))\<rparr>)"

definition scheduleNextPass :: "nat \<Rightarrow> nat list \<Rightarrow> Result" where
  "scheduleNextPass now deadlines =
     (case deadlines of
        [] \<Rightarrow> emptyResult
      | d # ds \<Rightarrow> \<lparr>Requeue = False, RequeueAfter = fold min ds d - now\<rparr>)"

definition convergeDependents :: "nat \<Rightarrow> NamespacedName \<Rightarrow> EnterpriseSearch \<Rightarrow> Result step" where
  "convergeDependents now ownerID ent =
     andThen (reconcileService ownerID) (\<lambda>_.
     andThen (ensureCA now ownerID) (\<lambda>ca.
     andThen (ensureLeafCert now ownerID internal (subjectAltNames ownerID) ca) (\<lambda>internalDeadline.
     andThen (ensureLeafCert now ownerID public (subjectAltNames ownerID) ca) (\<lambda>publicDeadline.
     andThen (reconcileConfig ownerID ent) (\<lambda>configHash.
     andThen (reconcileDeployment ownerID ent configHash) (\<lambda>_.
     andThen (recomputeWatches ownerID ent) (\<lambda>_. (\<lambda>r.
       ok (scheduleNextPass now
             [rotationDeadline (Params r) ca, internalDeadline, publicDeadline]) r))))))))"

definition doReconcile :: "nat \<Rightarrow> NamespacedName \<Rightarrow> EnterpriseSearch \<Rightarrow> Result step" where
  "doReconcile now ownerID ent =
     andThen (stampControllerVersion ownerID ent) (\<lambda>ent. (\<lambda>r.
       if IsDefined (ElasticsearchRef (Spec ent)) \<and> AssociationConf ent = None
       then ok emptyResult (record_event associationEvent r)
       else convergeDependents now ownerID ent r))"

definition Reconcile ::
  "nat \<Rightarrow> ReconcileEnterpriseSearch \<Rightarrow> NamespacedName \<Rightarrow>
   (Result \<times> Error option) \<times> ReconcileEnterpriseSearch" where
  "Reconcile now r request =
     (case get (Client r) (EnterpriseSearchKind, request) of
        Some (OwnerObj ent) \<Rightarrow>
          if IsUnmanaged ent then ((emptyResult, None), r)
          else (case validate (Spec ent) of
                  Some fe \<Rightarrow>
                    ((emptyResult, Some (ValidationError fe)), record_event (validationEvent fe) r)
                | None \<Rightarrow>
                    (case doReconcile now request ent r of
                       (Inl e, r') \<Rightarrow> ((emptyResult, Some e), r')
                     | (Inr res, r') \<Rightarrow> ((res, None), r')))
      | _ \<Rightarrow>
          ((emptyResult, None), r\<lparr>dynamicWatches := unregisterAll request (dynamicWatches r)\<rparr>))"

subsection \<open>The state a pass aims at\<close>

text \<open>
  Modelled from the spec: the invariant of the data model (section 3), that at the end of
  a successful pass every dependent exists and matches the desired object in the fields
  the operator controls. For each kind of dependent, the test a convergence operation
  makes before it decides not to write; and the keys of the owner and its six dependents.
\<close>

definition ownerKey :: "NamespacedName \<Rightarrow> ObjectKey" where
  "ownerKey ownerID = (EnterpriseSearchKind, ownerID)"

definition serviceKey :: "NamespacedName \<Rightarrow> ObjectKey" where
  "serviceKey ownerID = (ServiceKind, fst ownerID, HTTPService (snd ownerID))"

definition caKey :: "NamespacedName \<Rightarrow> ObjectKey" where
  "caKey ownerID = (SecretKind, fst ownerID, CAInternalSecret (snd ownerID))"

definition leafKey :: "CertKind \<Rightarrow> NamespacedName \<Rightarrow> ObjectKey" where
  "leafKey kind ownerID = (SecretKind, fst ownerID, leafSecretName kind (snd ownerID))"

definition configKey :: "NamespacedName \<Rightarrow> ObjectKey" where
  "configKey ownerID = (SecretKind, fst ownerID, ConfigSecret (snd ownerID))"

definition deploymentKey :: "NamespacedName \<Rightarrow> ObjectKey" where
  "deploymentKey ownerID = (DeploymentKind, fst ownerID, DeploymentName (snd ownerID))"

definition dependentKeys :: "NamespacedName \<Rightarrow> ObjectKey list" where
  "dependentKeys ownerID =
     [serviceKey ownerID, caKey ownerID, leafKey internal ownerID, leafKey public ownerID,
      configKey ownerID, deploymentKey ownerID]"

definition serviceConverged :: "Cluster \<Rightarrow> NamespacedName \<Rightarrow> bool" where
  "serviceConverged c ownerID =
     (case get c (serviceKey ownerID) of
        Some (ServiceObj actual) \<Rightarrow>
          Ports actual = Ports (desiredService ownerID)
          \<and> sameEntries (Selector actual) (Selector (desiredService ownerID))
      | _ \<Rightarrow> False)"


definition configConverged :: "Cluster \<Rightarrow> NamespacedName \<Rightarrow> EnterpriseSearch \<Rightarrow> bool" where
  "configConverged c ownerID ent =
     (case get c (configKey ownerID) of
        Some (SecretObj actual) \<Rightarrow> sameEntries (Data actual) (Data (desiredConfig ownerID ent))
      | _ \<Rightarrow> False)"



text \<open>What a step may change: the objects under the keys in \<open>K\<close>, the log of writes and
  the keys still to be drawn.\<close>

definition changesOnly :: "ObjectKey set \<Rightarrow> ReconcileEnterpriseSearch \<Rightarrow> ReconcileEnterpriseSearch \<Rightarrow> bool" where
  "changesOnly K r r' =
     (Params r' = Params r \<and> Refused (Client r') = Refused (Client r)
      \<and> dynamicWatches r' = dynamicWatches r \<and> recorder r' = recorder r
      \<and> (\<forall>k. k \<notin> K \<longrightarrow> Objects (Client r') k = Objects (Client r) k))"

text \<open>The objects of the test scenarios.\<close>

definition sample :: EnterpriseSearch where
  "sample =
     \<lparr>entAnnotations = Map.empty,
      Spec = \<lparr>Version = ''7.7.0'', Count = 3, ElasticsearchRef = ([], []), ConfigRef = [],
               TLSSecretName = []\<rparr>,
      AssociationConf = None\<rparr>"

definition fakeClient :: "(ObjectKey \<times> Object) list \<Rightarrow> Cluster" where
  "fakeClient objs = \<lparr>Objects = map_of objs, Refused = {}, Writes = []\<rparr>"

text \<open>
  The reconcilers of the tests. The parameters: the operator's version of the test, a
  year of validity and a day of safety margin, and for the hash the content itself
  behind a prefix. \<open>TestReconcileEnterpriseSearch_Reconcile_Create_Update_Resources\<close>
  starts from a client that holds the owner alone; \<open>..._NotFound\<close> from an empty client
  and two registrations for the owner; \<open>..._AssociationNotConfigured\<close> from an owner
  that references the Elasticsearch \<open>ns/es\<close>; \<open>..._InvalidResource\<close> from an owner
  without a version.
\<close>

definition testParameters :: Parameters where
  "testParameters =
     \<lparr>OperatorVersion = ''1.0.0'', CAValidity = 31536000, CertValidity = 31536000,
      RotateBefore = 86400, ConfigHash = (\<lambda>content. ''sum-'' @ content)\<rparr>"

definition testReconciler :: "Cluster \<Rightarrow> ReconcileEnterpriseSearch" where
  "testReconciler client =
     \<lparr>Client = client, dynamicWatches = [], recorder = [], Params = testParameters,
      entropy = [1, 2, 3, 4, 5, 6]\<rparr>"


definition notFoundReconciler :: ReconcileEnterpriseSearch where
  "notFoundReconciler =
     (testReconciler (fakeClient []))
       \<lparr>dynamicWatches :=
          register (''ns'', ''sample'') HTTPCertificateWatch [(''ns'', ''user-tls-secret'')]
            (register (''ns'', ''sample'') ConfigRefWatch [(''ns'', ''watched-secret'')] [])\<rparr>"

definition sampleWithRef :: EnterpriseSearch where
  "sampleWithRef = sample\<lparr>Spec := (Spec sample)\<lparr>ElasticsearchRef := (''ns'', ''es'')\<rparr>\<rparr>"

definition associationReconciler :: ReconcileEnterpriseSearch where
  "associationReconciler =
     testReconciler (fakeClient [(ownerKey (''ns'', ''sample''), OwnerObj sampleWithRef)])"

definition sampleWithoutVersion :: EnterpriseSearch where
  "sampleWithoutVersion = sample\<lparr>Spec := (Spec sample)\<lparr>Version := [], Count := 0\<rparr>\<rparr>"

definition invalidReconciler :: ReconcileEnterpriseSearch where
  "invalidReconciler =
     testReconciler (fakeClient [(ownerKey (''ns'', ''sample''), OwnerObj sampleWithoutVersion)])"

text \<open>A client like the one of \<open>sampleReconciler\<close> whose storage refuses the write of the
  deployment.\<close>

definition refusingReconciler :: ReconcileEnterpriseSearch where
  "refusingReconciler =
     testReconciler
       ((fakeClient [(ownerKey (''ns'', ''sample''), OwnerObj sample)])
          \<lparr>Refused := {deploymentKey (''ns'', ''sample'')}\<rparr>)"


section \<open>Properties of the annotation\<close>

lemma fold_append_id: "fold (\<lambda>x a. a @ [x]) xs acc = acc @ xs"
  by (induction xs arbitrary: acc) simp_all

lemma fold_insert_set: "fold insert xs A = set xs \<union> A"
  by (induction xs arbitrary: A) auto

lemma Split_not_Nil: "Split s sep \<noteq> []"
  by (induction s) (auto split: list.splits)

lemma Split_no_sep: "sep \<notin> set x \<Longrightarrow> Split x sep = [x]"
  by (induction x) auto

lemma Split_append_sep:
  "sep \<notin> set x \<Longrightarrow> Split (x @ sep # rest) sep = x # Split rest sep"
  by (induction x) auto

lemma Split_Join:
  "xs \<noteq> [] \<Longrightarrow> \<forall>x \<in> set xs. sep \<notin> set x \<Longrightarrow> Split (Join xs [sep]) sep = xs"
proof (induction xs "[sep]" rule: Join.induct)
  case 1
  then show ?case by simp
next
  case (2 a)
  then show ?case by (simp add: Split_no_sep)
next
  case (3 a b elems)
  then show ?case by (simp add: Split_append_sep)
qed

lemma sort_distinct_canonical:
  "distinct ks \<Longrightarrow> sort ks = sorted_list_of_set (set ks)"
  by (simp add: sorted_list_of_set_sort_remdups distinct_remdups_id)

lemma sort_order_independent:
  "distinct ks \<Longrightarrow> distinct ks' \<Longrightarrow> set ks' = set ks \<Longrightarrow> sort ks' = sort ks"
  by (simp add: sort_distinct_canonical)

lemma annotate_calls_Update:
  "annotateWithCreatedRemoteClusters c es ks s =
     c (es\<lparr>Annotations :=
            Some ((case Annotations es of None \<Rightarrow> Map.empty | Some t \<Rightarrow> t)
                  (ManagedRemoteClustersAnnotationName \<mapsto> Join (sort ks) '',''))\<rparr>) s"
  by (simp add: annotateWithCreatedRemoteClusters_def fold_append_id)

lemma get_after_annotate:
  "getRemoteClustersInAnnotation
     (es\<lparr>Annotations := Some (t(ManagedRemoteClustersAnnotationName \<mapsto> v))\<rparr>) =
   Some (set (Split v (CHR '','')))"
  by (simp add: getRemoteClustersInAnnotation_def index_def fold_insert_set)


text \<open>
  C8. On a resource whose annotations do not hold the key
  \<open>elasticsearch.k8s.elastic.co/managed-remote-clusters\<close> (the annotations map is
  \<open>nil\<close>, or it is allocated and lacks the key), \<open>getRemoteClustersInAnnotation\<close>
  returns an allocated, empty set: never \<open>nil\<close>.
\<close>

theorem getRemoteClustersInAnnotation_absent:
  "index (Annotations es) ManagedRemoteClustersAnnotationName = None \<Longrightarrow>
   getRemoteClustersInAnnotation es = Some {}"
  by (simp add: getRemoteClustersInAnnotation_def)

theorem getRemoteClustersInAnnotation_absent_witness:
  "index (Annotations \<lparr>Namespace = ''ns'', Name = ''es'', Annotations = None\<rparr>)
     ManagedRemoteClustersAnnotationName = None
   \<and> getRemoteClustersInAnnotation \<lparr>Namespace = ''ns'', Name = ''es'', Annotations = None\<rparr> = Some {}
   \<and> index (Annotations \<lparr>Namespace = ''ns'', Name = ''es'',
                Annotations = Some [''owner'' \<mapsto> ''team-a'']\<rparr>)
       ManagedRemoteClustersAnnotationName = None
   \<and> getRemoteClustersInAnnotation
       \<lparr>Namespace = ''ns'', Name = ''es'', Annotations = Some [''owner'' \<mapsto> ''team-a'']\<rparr> = Some {}"
proof -
  have h1: "index (Annotations \<lparr>Namespace = ''ns'', Name = ''es'', Annotations = None\<rparr>)
              ManagedRemoteClustersAnnotationName = None"
    by (simp add: index_def)
  have h2: "index (Annotations \<lparr>Namespace = ''ns'', Name = ''es'',
                     Annotations = Some [''owner'' \<mapsto> ''team-a'']\<rparr>)
              ManagedRemoteClustersAnnotationName = None"
    by (simp add: index_def ManagedRemoteClustersAnnotationName_def)
  show ?thesis
    using h1 h2 getRemoteClustersInAnnotation_absent [OF h1]
      getRemoteClustersInAnnotation_absent [OF h2]
    by simp
qed


text \<open>
  C10. \<open>annotateWithCreatedRemoteClusters\<close> calls \<open>Update\<close> once, as its last action,
  on the resource with one field changed, the annotations. The annotations of that object
  are an allocated map \<open>t\<close> that holds the managed-remote-clusters key and agrees with
  the annotations of the argument on every other key; when the argument's annotations
  were \<open>nil\<close>, \<open>t\<close> is a fresh map holding that key alone.
\<close>

theorem annotateWithCreatedRemoteClusters_frame:
  "\<exists>t. (\<forall>c s. annotateWithCreatedRemoteClusters c es ks s = c (es\<lparr>Annotations := Some t\<rparr>) s)
     \<and> ManagedRemoteClustersAnnotationName \<in> dom t
     \<and> (\<forall>k. k \<noteq> ManagedRemoteClustersAnnotationName \<longrightarrow> t k = index (Annotations es) k)
     \<and> (Annotations es = None \<longrightarrow> dom t = {ManagedRemoteClustersAnnotationName})"
proof (intro exI conjI)
  let ?t = "(case Annotations es of None \<Rightarrow> Map.empty | Some t \<Rightarrow> t)
              (ManagedRemoteClustersAnnotationName \<mapsto> Join (sort ks) '','')"
  show "\<forall>c s. annotateWithCreatedRemoteClusters c es ks s = c (es\<lparr>Annotations := Some ?t\<rparr>) s"
    by (simp add: annotate_calls_Update)
  show "ManagedRemoteClustersAnnotationName \<in> dom ?t"
    by simp
  show "\<forall>k. k \<noteq> ManagedRemoteClustersAnnotationName \<longrightarrow> ?t k = index (Annotations es) k"
    by (simp add: index_def split: option.splits)
  show "Annotations es = None \<longrightarrow> dom ?t = {ManagedRemoteClustersAnnotationName}"
    by simp
qed


theorem annotateWithCreatedRemoteClusters_frame_witness:
  "(\<exists>t. annotateWithCreatedRemoteClusters storing_Update
          \<lparr>Namespace = ''ns'', Name = ''es'', Annotations = Some [''owner'' \<mapsto> ''team-a'']\<rparr>
          [''b'', ''a''] None
        = (None, Some \<lparr>Namespace = ''ns'', Name = ''es'', Annotations = Some t\<rparr>)
     \<and> ''owner'' \<noteq> ManagedRemoteClustersAnnotationName
     \<and> t ''owner'' = Some ''team-a''
     \<and> ManagedRemoteClustersAnnotationName \<in> dom t)
   \<and> (\<exists>t. annotateWithCreatedRemoteClusters storing_Update
          \<lparr>Namespace = ''ns'', Name = ''es'', Annotations = None\<rparr> [''b'', ''a''] None
        = (None, Some \<lparr>Namespace = ''ns'', Name = ''es'', Annotations = Some t\<rparr>)
     \<and> dom t = {ManagedRemoteClustersAnnotationName})"
proof (rule conjI)
  let ?es = "\<lparr>Namespace = ''ns'', Name = ''es'', Annotations = Some [''owner'' \<mapsto> ''team-a'']\<rparr>"
  obtain t where t:
    "(\<forall>(c :: (unit, Elasticsearch option, unit) Client) s.
         annotateWithCreatedRemoteClusters c ?es [''b'', ''a''] s
             = c (?es\<lparr>Annotations := Some t\<rparr>) s)
     \<and> ManagedRemoteClustersAnnotationName \<in> dom t
     \<and> (\<forall>k. k \<noteq> ManagedRemoteClustersAnnotationName \<longrightarrow> t k = index (Annotations ?es) k)
     \<and> (Annotations ?es = None \<longrightarrow> dom t = {ManagedRemoteClustersAnnotationName})"
    using annotateWithCreatedRemoteClusters_frame [of ?es "[''b'', ''a'']"] ..
  have ne: "''owner'' \<noteq> ManagedRemoteClustersAnnotationName"
    by (simp add: ManagedRemoteClustersAnnotationName_def)
  note call = t [THEN conjunct1, rule_format]
  note key = t [THEN conjunct2, THEN conjunct1]
  note rest = t [THEN conjunct2, THEN conjunct2, THEN conjunct1, rule_format]
  have "t ''owner'' = index (Annotations ?es) ''owner''"
    by (rule rest [OF ne])
  then have own: "t ''owner'' = Some ''team-a''" by (simp add: index_def)
  have stored: "annotateWithCreatedRemoteClusters storing_Update ?es [''b'', ''a''] None
       = (None, Some \<lparr>Namespace = ''ns'', Name = ''es'', Annotations = Some t\<rparr>)"
    by (simp only: call) (simp add: storing_Update_def)
  from stored ne own key show
    "\<exists>t. annotateWithCreatedRemoteClusters storing_Update ?es [''b'', ''a''] None
        = (None, Some \<lparr>Namespace = ''ns'', Name = ''es'', Annotations = Some t\<rparr>)
     \<and> ''owner'' \<noteq> ManagedRemoteClustersAnnotationName
     \<and> t ''owner'' = Some ''team-a''
     \<and> ManagedRemoteClustersAnnotationName \<in> dom t"
    by (intro exI [of _ t] conjI)
next
  let ?es = "\<lparr>Namespace = ''ns'', Name = ''es'', Annotations = None\<rparr>"
  obtain t where t:
    "(\<forall>(c :: (unit, Elasticsearch option, unit) Client) s.
         annotateWithCreatedRemoteClusters c ?es [''b'', ''a''] s
             = c (?es\<lparr>Annotations := Some t\<rparr>) s)
     \<and> ManagedRemoteClustersAnnotationName \<in> dom t
     \<and> (\<forall>k. k \<noteq> ManagedRemoteClustersAnnotationName \<longrightarrow> t k = index (Annotations ?es) k)
     \<and> (Annotations ?es = None \<longrightarrow> dom t = {ManagedRemoteClustersAnnotationName})"
    using annotateWithCreatedRemoteClusters_frame [of ?es "[''b'', ''a'']"] ..
  note call = t [THEN conjunct1, rule_format]
  note nil = t [THEN conjunct2, THEN conjunct2, THEN conjunct2, rule_format]
  have fresh: "dom t = {ManagedRemoteClustersAnnotationName}"
    by (rule nil) simp
  have stored: "annotateWithCreatedRemoteClusters storing_Update ?es [''b'', ''a''] None
       = (None, Some \<lparr>Namespace = ''ns'', Name = ''es'', Annotations = Some t\<rparr>)"
    by (simp only: call) (simp add: storing_Update_def)
  from stored fresh show
    "\<exists>t. annotateWithCreatedRemoteClusters storing_Update ?es [''b'', ''a''] None
        = (None, Some \<lparr>Namespace = ''ns'', Name = ''es'', Annotations = Some t\<rparr>)
     \<and> dom t = {ManagedRemoteClustersAnnotationName}"
    by (intro exI [of _ t] conjI)
qed

text \<open>
  C1 (as amended). Let \<open>ks\<close> and \<open>ks'\<close> be two orders in which \<open>range\<close> may yield the
  keys of the same set. \<open>annotateWithCreatedRemoteClusters\<close> hands the same object to
  \<open>Update\<close> for both; its managed-remote-clusters annotation is the sorted list of the
  set, joined with commas; and when the set is not empty and no identifier contains a
  comma, \<open>getRemoteClustersInAnnotation\<close> on that object returns the set.
\<close>

theorem annotate_then_get:
  assumes "distinct ks" and "distinct ks'" and "set ks' = set ks"
  shows "\<exists>t. (\<forall>c s. annotateWithCreatedRemoteClusters c es ks s = c (es\<lparr>Annotations := Some t\<rparr>) s)
     \<and> (\<forall>c s. annotateWithCreatedRemoteClusters c es ks' s = c (es\<lparr>Annotations := Some t\<rparr>) s)
     \<and> t ManagedRemoteClustersAnnotationName = Some (Join (sorted_list_of_set (set ks)) '','')
     \<and> (ks \<noteq> [] \<and> (\<forall>k \<in> set ks. CHR '','' \<notin> set k) \<longrightarrow>
          getRemoteClustersInAnnotation (es\<lparr>Annotations := Some t\<rparr>) = Some (set ks))"
proof (intro exI conjI)
  let ?v = "Join (sort ks) '',''"
  let ?t = "(case Annotations es of None \<Rightarrow> Map.empty | Some t \<Rightarrow> t)
              (ManagedRemoteClustersAnnotationName \<mapsto> ?v)"
  show "\<forall>c s. annotateWithCreatedRemoteClusters c es ks s = c (es\<lparr>Annotations := Some ?t\<rparr>) s"
    by (simp add: annotate_calls_Update)
  from assms have "sort ks' = sort ks"
    by (rule sort_order_independent)
  then show "\<forall>c s. annotateWithCreatedRemoteClusters c es ks' s = c (es\<lparr>Annotations := Some ?t\<rparr>) s"
    by (simp add: annotate_calls_Update)
  from assms(1) show "?t ManagedRemoteClustersAnnotationName
      = Some (Join (sorted_list_of_set (set ks)) '','')"
    by (simp add: sort_distinct_canonical)
  show "ks \<noteq> [] \<and> (\<forall>k \<in> set ks. CHR '','' \<notin> set k) \<longrightarrow>
          getRemoteClustersInAnnotation (es\<lparr>Annotations := Some ?t\<rparr>) = Some (set ks)"
  proof
    assume h: "ks \<noteq> [] \<and> (\<forall>k \<in> set ks. CHR '','' \<notin> set k)"
    then have "set (sort ks) \<noteq> {}" and "\<forall>k \<in> set (sort ks). CHR '','' \<notin> set k"
      by simp_all
    then have "sort ks \<noteq> []" and "\<forall>k \<in> set (sort ks). CHR '','' \<notin> set k"
      by (simp_all only: set_empty not_False_eq_True)
    then have "Split ?v (CHR '','') = sort ks"
      by (rule Split_Join)
    then show "getRemoteClustersInAnnotation (es\<lparr>Annotations := Some ?t\<rparr>) = Some (set ks)"
      by (simp add: get_after_annotate)
  qed
qed

theorem annotate_then_get_witness:
  "distinct [''b'', ''a''] \<and> distinct [''a'', ''b''] \<and> set [''a'', ''b''] = set [''b'', ''a'']
   \<and> [''b'', ''a''] \<noteq> [] \<and> CHR '','' \<notin> set ''b'' \<and> CHR '','' \<notin> set ''a''
   \<and> (\<exists>t. annotateWithCreatedRemoteClusters storing_Update
              \<lparr>Namespace = ''ns'', Name = ''es'', Annotations = None\<rparr> [''b'', ''a''] None
            = (None, Some \<lparr>Namespace = ''ns'', Name = ''es'', Annotations = Some t\<rparr>)
          \<and> annotateWithCreatedRemoteClusters storing_Update
              \<lparr>Namespace = ''ns'', Name = ''es'', Annotations = None\<rparr> [''a'', ''b''] None
            = (None, Some \<lparr>Namespace = ''ns'', Name = ''es'', Annotations = Some t\<rparr>)
          \<and> t ManagedRemoteClustersAnnotationName = Some ''a,b''
          \<and> getRemoteClustersInAnnotation
               \<lparr>Namespace = ''ns'', Name = ''es'', Annotations = Some t\<rparr> = Some {''a'', ''b''})"
proof -
  let ?es = "\<lparr>Namespace = ''ns'', Name = ''es'', Annotations = None\<rparr>"
  let ?ks = "[''b'', ''a'']"
  let ?ks' = "[''a'', ''b'']"
  have d: "distinct ?ks" and d': "distinct ?ks'" and s: "set ?ks' = set ?ks"
    by auto
  have ok: "?ks \<noteq> [] \<and> (\<forall>k \<in> set ?ks. CHR '','' \<notin> set k)"
    by simp
  obtain t where t:
    "(\<forall>(c :: (unit, Elasticsearch option, unit) Client) s.
        annotateWithCreatedRemoteClusters c ?es ?ks s = c (?es\<lparr>Annotations := Some t\<rparr>) s)
     \<and> (\<forall>(c :: (unit, Elasticsearch option, unit) Client) s.
        annotateWithCreatedRemoteClusters c ?es ?ks' s = c (?es\<lparr>Annotations := Some t\<rparr>) s)
     \<and> t ManagedRemoteClustersAnnotationName = Some (Join (sorted_list_of_set (set ?ks)) '','')
     \<and> (?ks \<noteq> [] \<and> (\<forall>k \<in> set ?ks. CHR '','' \<notin> set k) \<longrightarrow>
          getRemoteClustersInAnnotation (?es\<lparr>Annotations := Some t\<rparr>) = Some (set ?ks))"
    using annotate_then_get [OF d d' s, of ?es] ..
  note call = t [THEN conjunct1, rule_format]
  note call' = t [THEN conjunct2, THEN conjunct1, rule_format]
  note val = t [THEN conjunct2, THEN conjunct2, THEN conjunct1]
  note rt = t [THEN conjunct2, THEN conjunct2, THEN conjunct2, rule_format, OF ok]
  have "sorted_list_of_set (set ?ks) = sort ?ks"
    by (rule sort_distinct_canonical [symmetric]) (rule d)
  then have canon: "sorted_list_of_set (set ?ks) = [''a'', ''b'']"
    by simp
  have 1: "annotateWithCreatedRemoteClusters storing_Update ?es ?ks None
       = (None, Some \<lparr>Namespace = ''ns'', Name = ''es'', Annotations = Some t\<rparr>)"
    by (simp only: call) (simp add: storing_Update_def)
  have 2: "annotateWithCreatedRemoteClusters storing_Update ?es ?ks' None
       = (None, Some \<lparr>Namespace = ''ns'', Name = ''es'', Annotations = Some t\<rparr>)"
    by (simp only: call') (simp add: storing_Update_def)
  have 3: "t ManagedRemoteClustersAnnotationName = Some ''a,b''"
    by (simp only: val canon) simp
  have 4: "getRemoteClustersInAnnotation
             \<lparr>Namespace = ''ns'', Name = ''es'', Annotations = Some t\<rparr> = Some {''a'', ''b''}"
    using rt by auto
  from 1 2 3 4 have "\<exists>t. annotateWithCreatedRemoteClusters storing_Update ?es ?ks None
            = (None, Some \<lparr>Namespace = ''ns'', Name = ''es'', Annotations = Some t\<rparr>)
          \<and> annotateWithCreatedRemoteClusters storing_Update ?es ?ks' None
            = (None, Some \<lparr>Namespace = ''ns'', Name = ''es'', Annotations = Some t\<rparr>)
          \<and> t ManagedRemoteClustersAnnotationName = Some ''a,b''
          \<and> getRemoteClustersInAnnotation
               \<lparr>Namespace = ''ns'', Name = ''es'', Annotations = Some t\<rparr> = Some {''a'', ''b''}"
    by (intro exI [of _ t] conjI)
  with d d' s ok show ?thesis
    by (intro conjI) simp_all
qed

text \<open>
  The round trip fails for the empty set, which is written as the empty string and read
  back as the set holding the empty string, and for an identifier with a comma, which is
  read back as its pieces.
\<close>

theorem annotate_then_get_counterexample:
  "annotateWithCreatedRemoteClusters storing_Update
     \<lparr>Namespace = ''ns'', Name = ''es'', Annotations = None\<rparr> [] None
   = (None, Some \<lparr>Namespace = ''ns'', Name = ''es'',
        Annotations = Some [ManagedRemoteClustersAnnotationName \<mapsto> '''']\<rparr>)
   \<and> getRemoteClustersInAnnotation \<lparr>Namespace = ''ns'', Name = ''es'',
        Annotations = Some [ManagedRemoteClustersAnnotationName \<mapsto> '''']\<rparr> = Some {''''}
   \<and> Some {''''} \<noteq> Some (set ([] :: string list))
   \<and> annotateWithCreatedRemoteClusters storing_Update
     \<lparr>Namespace = ''ns'', Name = ''es'', Annotations = None\<rparr> [''a,b''] None
   = (None, Some \<lparr>Namespace = ''ns'', Name = ''es'',
        Annotations = Some [ManagedRemoteClustersAnnotationName \<mapsto> ''a,b'']\<rparr>)
   \<and> getRemoteClustersInAnnotation \<lparr>Namespace = ''ns'', Name = ''es'',
        Annotations = Some [ManagedRemoteClustersAnnotationName \<mapsto> ''a,b'']\<rparr> = Some {''a'', ''b''}
   \<and> Some {''a'', ''b''} \<noteq> Some (set [''a,b''])"
  by (auto simp add: annotateWithCreatedRemoteClusters_def storing_Update_def
      getRemoteClustersInAnnotation_def index_def)

section \<open>Properties of the reconciler\<close>

subsection \<open>Steps\<close>


lemma andThen_Inl: "m r = (Inl e, r') \<Longrightarrow> andThen m f r = (Inl e, r')"
  by (simp add: andThen_def)

lemma andThen_ok: "andThen m (\<lambda>x. ok (g x)) r = (Inr y, r') \<longleftrightarrow> (\<exists>x. m r = (Inr x, r') \<and> y = g x)"
  by (auto simp: andThen_def ok_def split: prod.splits sum.splits)

lemma persist_accepted:
  "k \<notin> Refused (Client r) \<Longrightarrow>
   persist k obj r =
     (Inr (), r\<lparr>Client := (Client r)\<lparr>Objects := (Objects (Client r))(k \<mapsto> obj),
                                       Writes := Writes (Client r) @ [k]\<rparr>\<rparr>)"
  by (simp add: persist_def)

lemma persist_refused:
  "k \<in> Refused (Client r) \<Longrightarrow> persist k obj r = (Inl (StorageError k), r)"
  by (simp add: persist_def)

lemma persist_Inr:
  "persist k obj r = (Inr u, r') \<Longrightarrow>
   k \<notin> Refused (Client r) \<and> changesOnly {k} r r' \<and> entropy r' = entropy r
   \<and> get (Client r') k = Some obj"
  by (auto simp: persist_def changesOnly_def get_def split: if_splits)

lemma persist_Inl:
  "persist k obj r = (Inl e, r') \<Longrightarrow> e = StorageError k \<and> k \<in> Refused (Client r) \<and> r' = r"
  by (auto simp: persist_def split: if_splits)

text \<open>
  C5. When the storage holds no resource under the requested identity, \<open>Reconcile\<close>
  returns the empty result (no requeue) and no error, changes nothing but the watch
  registry, and leaves no registration of that identity in it: no watched secret is
  listed for it any more. The registrations of other owners stay.
\<close>

theorem Reconcile_NotFound:
  "get (Client r) (EnterpriseSearchKind, request) = None \<Longrightarrow>
   Reconcile now r request =
     ((emptyResult, None), r\<lparr>dynamicWatches := unregisterAll request (dynamicWatches r)\<rparr>)
   \<and> RequeueAfter emptyResult = 0 \<and> \<not> Requeue emptyResult
   \<and> filter (\<lambda>reg. Owner reg = request) (unregisterAll request (dynamicWatches r)) = []
   \<and> listWatchedSecretNames request (unregisterAll request (dynamicWatches r)) = {}
   \<and> filter (\<lambda>reg. Owner reg \<noteq> request) (unregisterAll request (dynamicWatches r))
       = filter (\<lambda>reg. Owner reg \<noteq> request) (dynamicWatches r)"
  by (simp add: Reconcile_def emptyResult_def unregisterAll_def listWatchedSecretNames_def)


lemma stampControllerVersion_cases:
  "entAnnotations ent ControllerVersionAnnotation = Some (OperatorVersion (Params r))
     \<or> ownerKey ownerID \<notin> Refused (Client r) \<Longrightarrow>
   \<exists>ent' r'. stampControllerVersion ownerID ent r = (Inr ent', r')
      \<and> Spec ent' = Spec ent \<and> AssociationConf ent' = AssociationConf ent
      \<and> entAnnotations ent' ControllerVersionAnnotation = Some (OperatorVersion (Params r))
      \<and> changesOnly {ownerKey ownerID} r r' \<and> entropy r' = entropy r"
  by (auto simp: stampControllerVersion_def ok_def andThen_def persist_def ownerKey_def
      changesOnly_def Let_def)

text \<open>
  C6. For a managed, valid owner whose spec references a backend
  (\<open>ElasticsearchRef\<close> is defined) with no connection configuration, on a storage that
  accepts the write of the owner (or with the controller version already stamped),
  \<open>Reconcile\<close> returns the empty result (no requeue) and no error and records exactly
  one event, which the recorder renders as
  \<open>Warning AssociationError Elasticsearch backend is not configured\<close>; no dependent is
  touched.
\<close>

theorem Reconcile_AssociationNotConfigured:
  assumes "get (Client r) (EnterpriseSearchKind, request) = Some (OwnerObj ent)"
    and "\<not> IsUnmanaged ent" and "validate (Spec ent) = None"
    and "IsDefined (ElasticsearchRef (Spec ent))" and "AssociationConf ent = None"
    and "entAnnotations ent ControllerVersionAnnotation = Some (OperatorVersion (Params r))
         \<or> ownerKey request \<notin> Refused (Client r)"
  shows "\<exists>r'. Reconcile now r request = ((emptyResult, None), r')
           \<and> RequeueAfter emptyResult = 0 \<and> \<not> Requeue emptyResult
           \<and> recorder r' = recorder r @ [associationEvent]
           \<and> render_event associationEvent
               = ''Warning AssociationError Elasticsearch backend is not configured''
           \<and> (\<forall>k. k \<noteq> ownerKey request \<longrightarrow> Objects (Client r') k = Objects (Client r) k)"
proof -
  from stampControllerVersion_cases [OF assms(6)]
  obtain ent' r1 where
    st: "stampControllerVersion request ent r = (Inr ent', r1)"
    and sp: "Spec ent' = Spec ent" and ac: "AssociationConf ent' = AssociationConf ent"
    and fr: "changesOnly {ownerKey request} r r1"
    by blast
  from st sp ac assms(4,5) have
    "doReconcile now request ent r = (Inr emptyResult, record_event associationEvent r1)"
    by (simp add: doReconcile_def andThen_def ok_def)
  with assms(1,2,3) have
    "Reconcile now r request = ((emptyResult, None), record_event associationEvent r1)"
    by (simp add: Reconcile_def)
  moreover from fr have "recorder (record_event associationEvent r1) = recorder r @ [associationEvent]"
    by (simp add: record_event_def changesOnly_def)
  moreover from fr have
    "\<forall>k. k \<noteq> ownerKey request \<longrightarrow>
       Objects (Client (record_event associationEvent r1)) k = Objects (Client r) k"
    by (simp add: record_event_def changesOnly_def)
  moreover have "render_event associationEvent
      = ''Warning AssociationError Elasticsearch backend is not configured''"
    by (simp add: render_event_def associationEvent_def)
  ultimately show ?thesis
    by (intro exI [of _ "record_event associationEvent r1"]) (simp add: emptyResult_def)
qed



lemma sameEntries_refl: "sameEntries a a"
  by (simp add: sameEntries_def)


lemma andThen_InrE:
  assumes "andThen m f r = (Inr y, r'')"
  obtains x r' where "m r = (Inr x, r')" and "f x r' = (Inr y, r'')"
  using assms by (auto simp: andThen_def split: prod.splits sum.splits)

lemma andThen_InlE:
  assumes "andThen m f r = (Inl e, r'')"
  obtains "m r = (Inl e, r'')"
  | x r' where "m r = (Inr x, r')" and "f x r' = (Inl e, r'')"
  using assms by (auto simp: andThen_def split: prod.splits sum.splits)

lemma changesOnly_refl: "changesOnly K r r"
  by (simp add: changesOnly_def)

lemma changesOnly_trans:
  "changesOnly K1 r r1 \<Longrightarrow> changesOnly K2 r1 r2 \<Longrightarrow> changesOnly (K1 \<union> K2) r r2"
  unfolding changesOnly_def by auto

lemma changesOnly_get:
  "changesOnly K r r' \<Longrightarrow> k \<notin> K \<Longrightarrow> get (Client r') k = get (Client r) k"
  unfolding changesOnly_def get_def by blast

lemma changesOnly_loadKeyPair:
  "changesOnly K r r' \<Longrightarrow> (SecretKind, n) \<notin> K \<Longrightarrow>
   loadKeyPair (Client r') n = loadKeyPair (Client r) n"
  by (simp add: loadKeyPair_def changesOnly_get)


subsection \<open>The network endpoint\<close>


lemma reconcileService_Inr:
  "reconcileService ownerID r = (Inr u, r') \<Longrightarrow>
   changesOnly {serviceKey ownerID} r r' \<and> entropy r' = entropy r
   \<and> serviceConverged (Client r') ownerID"
  by (auto simp: reconcileService_def serviceConverged_def serviceKey_def ok_def Let_def
      changesOnly_refl sameEntries_refl
      split: option.splits Object.splits if_splits dest!: persist_Inr)

lemma reconcileService_Inl:
  "reconcileService ownerID r = (Inl e, r') \<Longrightarrow>
   e = StorageError (serviceKey ownerID) \<and> serviceKey ownerID \<in> Refused (Client r) \<and> r' = r"
  by (auto simp: reconcileService_def serviceKey_def ok_def Let_def
      split: option.splits Object.splits if_splits dest!: persist_Inl)


subsection \<open>Certificates\<close>

lemma generateKey_Inr:
  "generateKey r = (Inr key, r') \<Longrightarrow>
   changesOnly {} r r' \<and> entropy r = key # entropy r' \<and> Client r' = Client r"
  by (auto simp: generateKey_def changesOnly_def split: list.splits)

lemma generateKey_Inl:
  "generateKey r = (Inl e, r') \<Longrightarrow> e = CertGenerationError \<and> entropy r = [] \<and> r' = r"
  by (auto simp: generateKey_def split: list.splits)

lemma parseKeyPair_caSecret: "parseKeyPair (caSecret ca) = Some ca"
  by (simp add: parseKeyPair_def caSecret_def)

lemma parseKeyPair_leafSecret: "parseKeyPair (leafSecret ca c) = Some c"
  by (simp add: parseKeyPair_def leafSecret_def)

lemma ensureCA_noop:
  "loadKeyPair (Client r) (snd (caKey ownerID)) = Some ca \<Longrightarrow> validCA (Params r) now ca \<Longrightarrow>
   ensureCA now ownerID r = (Inr ca, r)"
  by (simp add: ensureCA_def caKey_def ok_def Let_def)

lemma ensureCA_generate_Inr:
  assumes "andThen generateKey (\<lambda>key.
              let ca = \<lparr>PublicKey = key, Issuer = key, DNSNames = [],
                        NotAfter = now + CAValidity (Params r)\<rparr>
              in andThen (persist (caKey ownerID) (SecretObj (caSecret ca))) (\<lambda>_. ok ca)) r
           = (Inr ca, r')"
  shows "changesOnly {caKey ownerID} r r' \<and> length (entropy r) = Suc (length (entropy r'))
     \<and> loadKeyPair (Client r') (snd (caKey ownerID)) = Some ca
     \<and> Issuer ca = PublicKey ca \<and> NotAfter ca = now + CAValidity (Params r)"
proof -
  from assms obtain key r1 where
    g: "generateKey r = (Inr key, r1)"
    and rest: "(let ca = \<lparr>PublicKey = key, Issuer = key, DNSNames = [],
                        NotAfter = now + CAValidity (Params r)\<rparr>
              in andThen (persist (caKey ownerID) (SecretObj (caSecret ca))) (\<lambda>_. ok ca)) r1
           = (Inr ca, r')"
    by (rule andThen_InrE)
  let ?ca = "\<lparr>PublicKey = key, Issuer = key, DNSNames = [],
                        NotAfter = now + CAValidity (Params r)\<rparr>"
  from rest obtain u r2 where
    p: "persist (caKey ownerID) (SecretObj (caSecret ?ca)) r1 = (Inr u, r2)"
    and o: "ok ?ca r2 = (Inr ca, r')"
    unfolding Let_def by (rule andThen_InrE)
  from o have ca: "ca = ?ca" and r': "r' = r2" by (simp_all add: ok_def)
  from generateKey_Inr [OF g] persist_Inr [OF p] have
    "changesOnly {} r r1" and "changesOnly {caKey ownerID} r1 r2"
    and len: "length (entropy r) = Suc (length (entropy r2))"
    and got: "get (Client r2) (caKey ownerID) = Some (SecretObj (caSecret ?ca))"
    by auto
  then have "changesOnly ({} \<union> {caKey ownerID}) r r2"
    by (intro changesOnly_trans)
  with len got show ?thesis
    using ca r' by (simp add: loadKeyPair_def caKey_def parseKeyPair_caSecret)
qed

lemma ensureCA_Inr:
  assumes "ensureCA now ownerID r = (Inr ca, r')"
  shows "changesOnly {caKey ownerID} r r'
     \<and> length (entropy r) \<le> Suc (length (entropy r'))
     \<and> loadKeyPair (Client r') (snd (caKey ownerID)) = Some ca
     \<and> Issuer ca = PublicKey ca
     \<and> (validCA (Params r) now ca \<or> NotAfter ca = now + CAValidity (Params r))"
proof (cases "\<exists>old. loadKeyPair (Client r) (snd (caKey ownerID)) = Some old
                \<and> validCA (Params r) now old")
  case True
  then obtain old where old: "loadKeyPair (Client r) (snd (caKey ownerID)) = Some old"
    and v: "validCA (Params r) now old" by blast
  from ensureCA_noop [OF old v] assms have "ca = old" and "r' = r" by simp_all
  with old v show ?thesis by (simp add: changesOnly_refl validCA_def)
next
  case False
  with assms have "andThen generateKey (\<lambda>key.
              let ca = \<lparr>PublicKey = key, Issuer = key, DNSNames = [],
                        NotAfter = now + CAValidity (Params r)\<rparr>
              in andThen (persist (caKey ownerID) (SecretObj (caSecret ca))) (\<lambda>_. ok ca)) r
           = (Inr ca, r')"
    by (auto simp: ensureCA_def caKey_def Let_def split: option.splits if_splits)
  from ensureCA_generate_Inr [OF this] show ?thesis by simp
qed

lemma ensureCA_Inl:
  "ensureCA now ownerID r = (Inl e, r') \<Longrightarrow>
   (e = StorageError (caKey ownerID) \<and> caKey ownerID \<in> Refused (Client r))
   \<or> (e = CertGenerationError \<and> entropy r = [])"
  by (auto simp: ensureCA_def caKey_def Let_def ok_def
      split: option.splits if_splits
      elim!: andThen_InlE dest!: generateKey_Inl generateKey_Inr persist_Inl)


lemma ensureLeafCert_noop:
  "loadKeyPair (Client r) (snd (leafKey kind ownerID)) = Some c \<Longrightarrow>
   validLeaf (Params r) now ca sans c \<Longrightarrow>
   ensureLeafCert now ownerID kind sans ca r = (Inr (rotationDeadline (Params r) c), r)"
  by (simp add: ensureLeafCert_def leafKey_def ok_def Let_def)

lemma ensureLeafCert_generate_Inr:
  assumes "andThen generateKey (\<lambda>key.
              let c = \<lparr>PublicKey = key, Issuer = PublicKey ca, DNSNames = sans,
                       NotAfter = now + CertValidity (Params r)\<rparr>
              in andThen (persist (leafKey kind ownerID) (SecretObj (leafSecret ca c)))
                   (\<lambda>_. ok (rotationDeadline (Params r) c))) r
           = (Inr d, r')"
  shows "changesOnly {leafKey kind ownerID} r r' \<and> length (entropy r) = Suc (length (entropy r'))
     \<and> (\<exists>c. loadKeyPair (Client r') (snd (leafKey kind ownerID)) = Some c
           \<and> d = rotationDeadline (Params r) c
           \<and> Issuer c = PublicKey ca \<and> DNSNames c = sans
           \<and> NotAfter c = now + CertValidity (Params r))"
proof -
  from assms obtain key r1 where
    g: "generateKey r = (Inr key, r1)"
    and rest: "(let c = \<lparr>PublicKey = key, Issuer = PublicKey ca, DNSNames = sans,
                       NotAfter = now + CertValidity (Params r)\<rparr>
              in andThen (persist (leafKey kind ownerID) (SecretObj (leafSecret ca c)))
                   (\<lambda>_. ok (rotationDeadline (Params r) c))) r1
           = (Inr d, r')"
    by (rule andThen_InrE)
  let ?c = "\<lparr>PublicKey = key, Issuer = PublicKey ca, DNSNames = sans,
                       NotAfter = now + CertValidity (Params r)\<rparr>"
  from rest obtain u r2 where
    p: "persist (leafKey kind ownerID) (SecretObj (leafSecret ca ?c)) r1 = (Inr u, r2)"
    and o: "ok (rotationDeadline (Params r) ?c) r2 = (Inr d, r')"
    unfolding Let_def by (rule andThen_InrE)
  from o have d: "d = rotationDeadline (Params r) ?c" and r': "r' = r2"
    by (simp_all add: ok_def)
  from generateKey_Inr [OF g] persist_Inr [OF p] have
    "changesOnly {} r r1" and "changesOnly {leafKey kind ownerID} r1 r2"
    and len: "length (entropy r) = Suc (length (entropy r2))"
    and got: "get (Client r2) (leafKey kind ownerID) = Some (SecretObj (leafSecret ca ?c))"
    by auto
  then have fr: "changesOnly ({} \<union> {leafKey kind ownerID}) r r2"
    by (intro changesOnly_trans)
  from got have "loadKeyPair (Client r2) (snd (leafKey kind ownerID)) = Some ?c"
    by (simp add: loadKeyPair_def leafKey_def parseKeyPair_leafSecret)
  with fr len d r' show ?thesis by simp
qed

lemma ensureLeafCert_Inr:
  assumes "ensureLeafCert now ownerID kind sans ca r = (Inr d, r')"
  shows "changesOnly {leafKey kind ownerID} r r'
     \<and> length (entropy r) \<le> Suc (length (entropy r'))
     \<and> (\<exists>c. loadKeyPair (Client r') (snd (leafKey kind ownerID)) = Some c
           \<and> d = rotationDeadline (Params r) c
           \<and> Issuer c = PublicKey ca \<and> DNSNames c = sans
           \<and> (\<not> expiring (Params r) now c \<or> NotAfter c = now + CertValidity (Params r)))"
proof (cases "\<exists>old. loadKeyPair (Client r) (snd (leafKey kind ownerID)) = Some old
                \<and> validLeaf (Params r) now ca sans old")
  case True
  then obtain old where old: "loadKeyPair (Client r) (snd (leafKey kind ownerID)) = Some old"
    and v: "validLeaf (Params r) now ca sans old" by blast
  from ensureLeafCert_noop [OF old v] assms
  have "d = rotationDeadline (Params r) old" and "r' = r" by simp_all
  with old v show ?thesis by (simp add: changesOnly_refl validLeaf_def)
next
  case False
  with assms have "andThen generateKey (\<lambda>key.
              let c = \<lparr>PublicKey = key, Issuer = PublicKey ca, DNSNames = sans,
                       NotAfter = now + CertValidity (Params r)\<rparr>
              in andThen (persist (leafKey kind ownerID) (SecretObj (leafSecret ca c)))
                   (\<lambda>_. ok (rotationDeadline (Params r) c))) r
           = (Inr d, r')"
    by (auto simp: ensureLeafCert_def leafKey_def Let_def split: option.splits if_splits)
  from ensureLeafCert_generate_Inr [OF this] show ?thesis by auto
qed

lemma ensureLeafCert_Inl:
  "ensureLeafCert now ownerID kind sans ca r = (Inl e, r') \<Longrightarrow>
   (e = StorageError (leafKey kind ownerID) \<and> leafKey kind ownerID \<in> Refused (Client r))
   \<or> (e = CertGenerationError \<and> entropy r = [])"
  by (auto simp: ensureLeafCert_def leafKey_def Let_def ok_def
      split: option.splits if_splits
      elim!: andThen_InlE dest!: generateKey_Inl generateKey_Inr persist_Inl)


subsection \<open>Configuration and deployment\<close>


lemma reconcileConfig_Inr:
  "reconcileConfig ownerID ent r = (Inr h, r') \<Longrightarrow>
   changesOnly {configKey ownerID} r r' \<and> entropy r' = entropy r
   \<and> h = ConfigHash (Params r) (renderConfig ownerID ent)
   \<and> configConverged (Client r') ownerID ent"
  by (auto simp: reconcileConfig_def configConverged_def configKey_def ok_def Let_def
      changesOnly_refl sameEntries_refl
      split: option.splits Object.splits if_splits
      elim!: andThen_InrE dest!: persist_Inr)

lemma reconcileConfig_Inl:
  "reconcileConfig ownerID ent r = (Inl e, r') \<Longrightarrow>
   e = StorageError (configKey ownerID) \<and> configKey ownerID \<in> Refused (Client r)"
  by (auto simp: reconcileConfig_def configKey_def ok_def Let_def
      split: option.splits Object.splits if_splits
      elim!: andThen_InlE dest!: persist_Inl)





lemma reconcileDeployment_Inl:
  "reconcileDeployment ownerID ent h r = (Inl e, r') \<Longrightarrow>
   e = StorageError (deploymentKey ownerID) \<and> deploymentKey ownerID \<in> Refused (Client r)"
  by (auto simp: reconcileDeployment_def deploymentKey_def ok_def Let_def
      split: option.splits Object.splits if_splits dest!: persist_Inl)



subsection \<open>Convergence of all dependents\<close>







lemma changesOnly_Refused: "changesOnly K r r' \<Longrightarrow> Refused (Client r') = Refused (Client r)"
  by (simp add: changesOnly_def)



lemma convergeDependents_Inl:
  assumes run: "convergeDependents now ownerID ent r = (Inl e, r')"
  shows "(case e of
            StorageError k \<Rightarrow> k \<in> set (dependentKeys ownerID) \<and> k \<in> Refused (Client r)
          | CertGenerationError \<Rightarrow> length (entropy r) < 3
          | ValidationError fe \<Rightarrow> False)"
proof -
  let ?sans = "subjectAltNames ownerID"
  from run [unfolded convergeDependents_def] show ?thesis
  proof (cases rule: andThen_InlE)
    case 1
    from reconcileService_Inl [OF 1] show ?thesis by (auto simp: dependentKeys_def)
  next
    case (2 u1 r1)
    note f1 = reconcileService_Inr [OF 2(1)]
    from f1 have R1: "Refused (Client r1) = Refused (Client r)" and e1: "entropy r1 = entropy r"
      by (auto dest: changesOnly_Refused)
    from 2(2) show ?thesis
    proof (cases rule: andThen_InlE)
      case 1
      from ensureCA_Inl [OF 1] R1 e1 show ?thesis by (auto simp: dependentKeys_def)
    next
      case (2 ca r2)
      note f2 = ensureCA_Inr [OF 2(1)]
      from f2 R1 have R2: "Refused (Client r2) = Refused (Client r)"
        by (auto dest: changesOnly_Refused)
      from f2 e1 have e2: "length (entropy r) \<le> Suc (length (entropy r2))" by simp
      from 2(2) show ?thesis
      proof (cases rule: andThen_InlE)
        case 1
        from ensureLeafCert_Inl [OF 1] R2 e2 show ?thesis by (auto simp: dependentKeys_def)
      next
        case (2 d1 r3)
        note f3 = ensureLeafCert_Inr [OF 2(1)]
        from f3 R2 have R3: "Refused (Client r3) = Refused (Client r)"
          by (auto dest: changesOnly_Refused)
        from f3 e2 have e3: "length (entropy r) \<le> Suc (Suc (length (entropy r3)))" by simp
        from 2(2) show ?thesis
        proof (cases rule: andThen_InlE)
          case 1
          from ensureLeafCert_Inl [OF 1] R3 e3 show ?thesis by (auto simp: dependentKeys_def)
        next
          case (2 d2 r4)
          note f4 = ensureLeafCert_Inr [OF 2(1)]
          from f4 R3 have R4: "Refused (Client r4) = Refused (Client r)"
            by (auto dest: changesOnly_Refused)
          from 2(2) show ?thesis
          proof (cases rule: andThen_InlE)
            case 1
            from reconcileConfig_Inl [OF 1] R4 show ?thesis by (auto simp: dependentKeys_def)
          next
            case (2 h r5)
            note f5 = reconcileConfig_Inr [OF 2(1)]
            from f5 R4 have R5: "Refused (Client r5) = Refused (Client r)"
              by (auto dest: changesOnly_Refused)
            from 2(2) show ?thesis
            proof (cases rule: andThen_InlE)
              case 1
              from reconcileDeployment_Inl [OF 1] R5 show ?thesis
                by (auto simp: dependentKeys_def)
            next
              case (2 u6 r6)
              from 2(2) show ?thesis
                by (auto simp: andThen_def recomputeWatches_def ok_def)
            qed
          qed
        qed
      qed
    qed
  qed
qed

subsection \<open>The whole pass\<close>

lemma stampControllerVersion_Inr:
  assumes "stampControllerVersion ownerID ent r = (Inr ent', r')"
    and "get (Client r) (ownerKey ownerID) = Some (OwnerObj ent)"
  shows "changesOnly {ownerKey ownerID} r r' \<and> entropy r' = entropy r
     \<and> get (Client r') (ownerKey ownerID) = Some (OwnerObj ent')
     \<and> Spec ent' = Spec ent \<and> AssociationConf ent' = AssociationConf ent
     \<and> IsUnmanaged ent' = IsUnmanaged ent
     \<and> entAnnotations ent' ControllerVersionAnnotation = Some (OperatorVersion (Params r))"
  using assms
  by (auto simp: stampControllerVersion_def ok_def Let_def changesOnly_refl IsUnmanaged_def
      ownerKey_def split: if_splits elim!: andThen_InrE dest!: persist_Inr)

lemma stampControllerVersion_Inl:
  "stampControllerVersion ownerID ent r = (Inl e, r') \<Longrightarrow>
   e = StorageError (ownerKey ownerID) \<and> ownerKey ownerID \<in> Refused (Client r)"
  by (auto simp: stampControllerVersion_def ok_def Let_def ownerKey_def
      split: if_splits elim!: andThen_InlE dest!: persist_Inl)


















lemma doReconcile_Inl:
  assumes run: "doReconcile now ownerID ent r = (Inl e, r')"
    and owner: "get (Client r) (ownerKey ownerID) = Some (OwnerObj ent)"
  shows "(case e of
            StorageError k \<Rightarrow>
              k \<in> set (ownerKey ownerID # dependentKeys ownerID) \<and> k \<in> Refused (Client r)
          | CertGenerationError \<Rightarrow> length (entropy r) < 3
          | ValidationError fe \<Rightarrow> False)"
  using run [unfolded doReconcile_def]
proof (cases rule: andThen_InlE)
  case 1
  from stampControllerVersion_Inl [OF 1] show ?thesis by simp
next
  case (2 ent' r0)
  from stampControllerVersion_Inr [OF 2(1) owner] have
    "Refused (Client r0) = Refused (Client r)" and "entropy r0 = entropy r"
    by (auto dest: changesOnly_Refused)
  moreover from 2(2) have "convergeDependents now ownerID ent' r0 = (Inl e, r')"
    by (auto simp: ok_def split: if_splits)
  from convergeDependents_Inl [OF this] have
    "(case e of
        StorageError k \<Rightarrow> k \<in> set (dependentKeys ownerID) \<and> k \<in> Refused (Client r0)
      | CertGenerationError \<Rightarrow> length (entropy r0) < 3
      | ValidationError fe \<Rightarrow> False)" .
  ultimately show ?thesis by (cases e) simp_all
qed

text \<open>
  C7 (as amended). For a managed owner whose spec lacks the version, \<open>Reconcile\<close>
  returns the error of the field \<open>spec.version\<close>, whose message is
  \<open>spec.version: Invalid value\<close>, with the empty result; it records one warning event
  with that message and leaves the client as it was. For a managed owner a pass returns
  an error in these cases only: the validation fails; the storage refuses a write of the
  owner or of one of its dependents; or fewer than three keys are left to draw for the
  certificates.
\<close>

theorem Reconcile_InvalidResource:
  assumes owner: "get (Client r) (ownerKey request) = Some (OwnerObj ent)"
    and managed: "\<not> IsUnmanaged ent"
  shows "(Version (Spec ent) = [] \<longrightarrow>
            (\<exists>fe. Reconcile now r request
                     = ((emptyResult, Some (ValidationError fe)), record_event (validationEvent fe) r)
                 \<and> Field fe = ''spec.version''
                 \<and> Error_text (ValidationError fe) = ''spec.version: Invalid value''
                 \<and> render_event (validationEvent fe)
                     = ''Warning Validation spec.version: Invalid value''
                 \<and> recorder (record_event (validationEvent fe) r)
                     = recorder r @ [validationEvent fe]
                 \<and> Client (record_event (validationEvent fe) r) = Client r))
     \<and> (\<forall>res e r'. Reconcile now r request = ((res, Some e), r') \<longrightarrow>
           (case e of
              ValidationError fe \<Rightarrow> validate (Spec ent) = Some fe
            | StorageError k \<Rightarrow>
                validate (Spec ent) = None
                \<and> k \<in> set (ownerKey request # dependentKeys request) \<and> k \<in> Refused (Client r)
            | CertGenerationError \<Rightarrow> validate (Spec ent) = None \<and> length (entropy r) < 3))"
proof (intro conjI impI allI)
  assume "Version (Spec ent) = []"
  then have v: "validate (Spec ent) = Some \<lparr>Field = ''spec.version'', Detail = ''Invalid value''\<rparr>"
    by (simp add: validate_def)
  with owner managed show
    "\<exists>fe. Reconcile now r request
             = ((emptyResult, Some (ValidationError fe)), record_event (validationEvent fe) r)
         \<and> Field fe = ''spec.version''
         \<and> Error_text (ValidationError fe) = ''spec.version: Invalid value''
         \<and> render_event (validationEvent fe) = ''Warning Validation spec.version: Invalid value''
         \<and> recorder (record_event (validationEvent fe) r) = recorder r @ [validationEvent fe]
         \<and> Client (record_event (validationEvent fe) r) = Client r"
    by (intro exI [of _ "\<lparr>Field = ''spec.version'', Detail = ''Invalid value''\<rparr>"])
       (simp add: Reconcile_def ownerKey_def Error_text_def error_message_def render_event_def
         validationEvent_def record_event_def)
next
  fix res e r'
  assume run: "Reconcile now r request = ((res, Some e), r')"
  show "case e of
          ValidationError fe \<Rightarrow> validate (Spec ent) = Some fe
        | StorageError k \<Rightarrow>
            validate (Spec ent) = None
            \<and> k \<in> set (ownerKey request # dependentKeys request) \<and> k \<in> Refused (Client r)
        | CertGenerationError \<Rightarrow> validate (Spec ent) = None \<and> length (entropy r) < 3"
  proof (cases "validate (Spec ent)")
    case (Some fe)
    with run owner managed show ?thesis
      by (auto simp: Reconcile_def ownerKey_def)
  next
    case None
    with run owner managed have "doReconcile now request ent r = (Inl e, r')"
      by (auto simp: Reconcile_def ownerKey_def split: prod.splits sum.splits)
    from doReconcile_Inl [OF this owner] None show ?thesis
      by (cases e) simp_all
  qed
qed

subsection \<open>The scenarios of the tests, evaluated\<close>

lemmas model_defs =
  Reconcile_def doReconcile_def convergeDependents_def stampControllerVersion_def
  reconcileService_def ensureCA_def ensureLeafCert_def reconcileConfig_def
  reconcileDeployment_def recomputeWatches_def scheduleNextPass_def
  andThen_def ok_def persist_def generateKey_def get_def loadKeyPair_def parseKeyPair_def
  caSecret_def leafSecret_def validCA_def validLeaf_def expiring_def rotationDeadline_def
  desiredService_def desiredConfig_def desiredDeployment_def sameDeployment_def
  sameEntries_def renderConfig_def subjectAltNames_def register_def watchedSecrets_def
  IsUnmanaged_def IsDefined_def validate_def emptyResult_def record_event_def
  HTTPService_def CAInternalSecret_def CertsInternalSecret_def CertsPublicSecret_def
  ConfigSecret_def DeploymentName_def Suffix_def leafSecretName_def
  ownerKey_def serviceKey_def caKey_def leafKey_def configKey_def deploymentKey_def
  fakeClient_def sample_def testParameters_def testReconciler_def
  HTTPPort_def ConfigFilename_def


text \<open>
  Validation is not the only path that returns an error: for the valid owner \<open>sample\<close>
  on a storage that refuses the write of the deployment, the pass returns the storage's
  error.
\<close>

theorem Reconcile_error_counterexample:
  "get (Client refusingReconciler) (ownerKey (''ns'', ''sample'')) = Some (OwnerObj sample)
   \<and> \<not> IsUnmanaged sample
   \<and> validate (Spec sample) = None
   \<and> fst (Reconcile 0 refusingReconciler (''ns'', ''sample''))
       = (emptyResult, Some (StorageError (deploymentKey (''ns'', ''sample''))))"
  by (simp add: model_defs refusingReconciler_def Let_def)

theorem Reconcile_NotFound_witness:
  "get (Client notFoundReconciler) (EnterpriseSearchKind, ''ns'', ''sample'') = None
   \<and> listWatchedSecretNames (''ns'', ''sample'') (dynamicWatches notFoundReconciler)
       = {(''ns'', ''watched-secret''), (''ns'', ''user-tls-secret'')}
   \<and> fst (Reconcile 0 notFoundReconciler (''ns'', ''sample'')) = (emptyResult, None)
   \<and> dynamicWatches (snd (Reconcile 0 notFoundReconciler (''ns'', ''sample''))) = []"
proof -
  have h: "get (Client notFoundReconciler) (EnterpriseSearchKind, ''ns'', ''sample'') = None"
    by (simp add: notFoundReconciler_def testReconciler_def fakeClient_def get_def)
  have w: "listWatchedSecretNames (''ns'', ''sample'') (dynamicWatches notFoundReconciler)
       = {(''ns'', ''watched-secret''), (''ns'', ''user-tls-secret'')}"
    by (simp add: notFoundReconciler_def testReconciler_def register_def
        listWatchedSecretNames_def)
  have u: "unregisterAll (''ns'', ''sample'') (dynamicWatches notFoundReconciler) = []"
    by (simp add: notFoundReconciler_def testReconciler_def register_def unregisterAll_def)
  from Reconcile_NotFound [OF h, of 0] h w u show ?thesis
    by simp
qed

theorem Reconcile_AssociationNotConfigured_witness:
  "get (Client associationReconciler) (EnterpriseSearchKind, ''ns'', ''sample'')
     = Some (OwnerObj sampleWithRef)
   \<and> \<not> IsUnmanaged sampleWithRef \<and> validate (Spec sampleWithRef) = None
   \<and> IsDefined (ElasticsearchRef (Spec sampleWithRef)) \<and> AssociationConf sampleWithRef = None
   \<and> ownerKey (''ns'', ''sample'') \<notin> Refused (Client associationReconciler)
   \<and> recorder associationReconciler = []
   \<and> (\<exists>r'. Reconcile 0 associationReconciler (''ns'', ''sample'') = ((emptyResult, None), r')
          \<and> map render_event (recorder r')
              = [''Warning AssociationError Elasticsearch backend is not configured''])"
proof -
  have h1: "get (Client associationReconciler) (EnterpriseSearchKind, ''ns'', ''sample'')
     = Some (OwnerObj sampleWithRef)"
    by (simp add: associationReconciler_def testReconciler_def fakeClient_def get_def
        ownerKey_def)
  have h2: "\<not> IsUnmanaged sampleWithRef" and h3: "validate (Spec sampleWithRef) = None"
    and h4: "IsDefined (ElasticsearchRef (Spec sampleWithRef))"
    and h5: "AssociationConf sampleWithRef = None"
    by (simp_all add: sampleWithRef_def sample_def IsUnmanaged_def validate_def IsDefined_def)
  have h6: "ownerKey (''ns'', ''sample'') \<notin> Refused (Client associationReconciler)"
    by (simp add: associationReconciler_def testReconciler_def fakeClient_def)
  then have h6': "entAnnotations sampleWithRef ControllerVersionAnnotation
        = Some (OperatorVersion (Params associationReconciler))
      \<or> ownerKey (''ns'', ''sample'') \<notin> Refused (Client associationReconciler)"
    by simp
  have e: "recorder associationReconciler = []"
    by (simp add: associationReconciler_def testReconciler_def)
  from Reconcile_AssociationNotConfigured [OF h1 h2 h3 h4 h5 h6', of 0] e
  have "\<exists>r'. Reconcile 0 associationReconciler (''ns'', ''sample'') = ((emptyResult, None), r')
          \<and> map render_event (recorder r')
              = [''Warning AssociationError Elasticsearch backend is not configured'']"
    by auto
  with h1 h2 h3 h4 h5 h6 e show ?thesis by simp
qed

theorem Reconcile_InvalidResource_witness:
  "get (Client invalidReconciler) (ownerKey (''ns'', ''sample'')) = Some (OwnerObj sampleWithoutVersion)
   \<and> \<not> IsUnmanaged sampleWithoutVersion
   \<and> Version (Spec sampleWithoutVersion) = []
   \<and> (\<exists>fe. Reconcile 0 invalidReconciler (''ns'', ''sample'')
              = ((emptyResult, Some (ValidationError fe)),
                 record_event (validationEvent fe) invalidReconciler)
          \<and> Error_text (ValidationError fe) = ''spec.version: Invalid value''
          \<and> render_event (validationEvent fe) = ''Warning Validation spec.version: Invalid value'')
   \<and> get (Client refusingReconciler) (ownerKey (''ns'', ''sample'')) = Some (OwnerObj sample)
   \<and> \<not> IsUnmanaged sample
   \<and> fst (Reconcile 0 refusingReconciler (''ns'', ''sample''))
       = (emptyResult, Some (StorageError (deploymentKey (''ns'', ''sample''))))
   \<and> validate (Spec sample) = None
   \<and> deploymentKey (''ns'', ''sample'') \<in> Refused (Client refusingReconciler)"
proof -
  let ?o = "(''ns'', ''sample'')"
  have h1: "get (Client invalidReconciler) (ownerKey ?o) = Some (OwnerObj sampleWithoutVersion)"
    by (simp add: invalidReconciler_def testReconciler_def fakeClient_def get_def)
  have h2: "\<not> IsUnmanaged sampleWithoutVersion"
    and h3: "Version (Spec sampleWithoutVersion) = []"
    by (simp_all add: sampleWithoutVersion_def sample_def IsUnmanaged_def)
  from Reconcile_InvalidResource [OF h1 h2, of 0] h3 have a:
    "\<exists>fe. Reconcile 0 invalidReconciler ?o
              = ((emptyResult, Some (ValidationError fe)),
                 record_event (validationEvent fe) invalidReconciler)
          \<and> Error_text (ValidationError fe) = ''spec.version: Invalid value''
          \<and> render_event (validationEvent fe) = ''Warning Validation spec.version: Invalid value''"
    by blast
  have g1: "get (Client refusingReconciler) (ownerKey ?o) = Some (OwnerObj sample)"
    by (simp add: refusingReconciler_def testReconciler_def fakeClient_def get_def)
  have g2: "\<not> IsUnmanaged sample"
    by (simp add: sample_def IsUnmanaged_def)
  have run: "fst (Reconcile 0 refusingReconciler ?o)
       = (emptyResult, Some (StorageError (deploymentKey ?o)))"
    by (simp add: model_defs refusingReconciler_def Let_def)
  then have "Reconcile 0 refusingReconciler ?o
       = ((emptyResult, Some (StorageError (deploymentKey ?o))),
          snd (Reconcile 0 refusingReconciler ?o))"
    by (simp add: prod_eq_iff)
  with Reconcile_InvalidResource [OF g1 g2, of 0] have
    "case StorageError (deploymentKey ?o) of
       ValidationError fe \<Rightarrow> validate (Spec sample) = Some fe
     | StorageError k \<Rightarrow>
         validate (Spec sample) = None
         \<and> k \<in> set (ownerKey ?o # dependentKeys ?o) \<and> k \<in> Refused (Client refusingReconciler)
     | CertGenerationError \<Rightarrow>
         validate (Spec sample) = None \<and> length (entropy refusingReconciler) < 3"
    by blast
  then have b: "validate (Spec sample) = None"
    "deploymentKey ?o \<in> Refused (Client refusingReconciler)"
    by simp_all
  from h1 h2 h3 a g1 g2 run b show ?thesis by simp
qed




end
